theory Spec2Isabelle
  imports Main "HOL-Library.Word" "HOL-Library.Multiset"
begin

unbundle bit_operations_syntax

section \<open>Values shared by the whole script\<close>

type_synonym byte = "8 word"
type_synonym u32 = "32 word"

text \<open>
  Python \<open>str\<close> values are modelled as \<open>string\<close>: the UTF-8 bytes of the text. The only
  characters the script inspects are \<open>/\<close> and the backslash, both ASCII, so every string
  operation used below (\<open>rstrip\<close>, \<open>replace\<close>, concatenation, comparison) acts on the bytes
  as it does on the code points.
\<close>

definition backslash :: char where
  "backslash = CHR 0x5C"

text \<open>
  A value produced by \<open>json.load\<close>. A float is kept as its IEEE-754 bit pattern; an object is
  the list of its items in insertion order.
\<close>

datatype json =
    JNull
  | JBool bool
  | JInt int
  | JFloat "64 word"
  | JStr string
  | JArr "json list"
  | JObj "(string \<times> json) list"

text \<open>The exceptions that can leave a function of the script.\<close>

datatype error =
    IOError
  | FileExistsError
  | FileNotFoundError
  | IsADirectoryError
  | JSONDecodeError
  | KeyError string
  | TypeError
  | AttributeError

section \<open>SHA-256 (\<open>hashlib.sha256\<close>)\<close>

type_synonym regs = "u32 \<times> u32 \<times> u32 \<times> u32 \<times> u32 \<times> u32 \<times> u32 \<times> u32"

definition rotr :: "nat \<Rightarrow> u32 \<Rightarrow> u32" where
  "rotr n x = drop_bit n x OR push_bit (32 - n) x"

definition Ch :: "u32 \<Rightarrow> u32 \<Rightarrow> u32 \<Rightarrow> u32" where
  "Ch x y z = (x AND y) XOR (NOT x AND z)"

definition Maj :: "u32 \<Rightarrow> u32 \<Rightarrow> u32 \<Rightarrow> u32" where
  "Maj x y z = (x AND y) XOR (x AND z) XOR (y AND z)"

definition bsig0 :: "u32 \<Rightarrow> u32" where
  "bsig0 x = rotr 2 x XOR rotr 13 x XOR rotr 22 x"

definition bsig1 :: "u32 \<Rightarrow> u32" where
  "bsig1 x = rotr 6 x XOR rotr 11 x XOR rotr 25 x"

definition ssig0 :: "u32 \<Rightarrow> u32" where
  "ssig0 x = rotr 7 x XOR rotr 18 x XOR drop_bit 3 x"

definition ssig1 :: "u32 \<Rightarrow> u32" where
  "ssig1 x = rotr 17 x XOR rotr 19 x XOR drop_bit 10 x"

definition K256 :: "u32 list" where
  "K256 =
   [0x428A2F98, 0x71374491, 0xB5C0FBCF, 0xE9B5DBA5, 0x3956C25B, 0x59F111F1, 0x923F82A4, 0xAB1C5ED5,
    0xD807AA98, 0x12835B01, 0x243185BE, 0x550C7DC3, 0x72BE5D74, 0x80DEB1FE, 0x9BDC06A7, 0xC19BF174,
    0xE49B69C1, 0xEFBE4786, 0x0FC19DC6, 0x240CA1CC, 0x2DE92C6F, 0x4A7484AA, 0x5CB0A9DC, 0x76F988DA,
    0x983E5152, 0xA831C66D, 0xB00327C8, 0xBF597FC7, 0xC6E00BF3, 0xD5A79147, 0x06CA6351, 0x14292967,
    0x27B70A85, 0x2E1B2138, 0x4D2C6DFC, 0x53380D13, 0x650A7354, 0x766A0ABB, 0x81C2C92E, 0x92722C85,
    0xA2BFE8A1, 0xA81A664B, 0xC24B8B70, 0xC76C51A3, 0xD192E819, 0xD6990624, 0xF40E3585, 0x106AA070,
    0x19A4C116, 0x1E376C08, 0x2748774C, 0x34B0BCB5, 0x391C0CB3, 0x4ED8AA4A, 0x5B9CCA4F, 0x682E6FF3,
    0x748F82EE, 0x78A5636F, 0x84C87814, 0x8CC70208, 0x90BEFFFA, 0xA4506CEB, 0xBEF9A3F7, 0xC67178F2]"

definition H256 :: regs where
  "H256 = (0x6A09E667, 0xBB67AE85, 0x3C6EF372, 0xA54FF53A,
           0x510E527F, 0x9B05688C, 0x1F83D9AB, 0x5BE0CD19)"

fun be_words :: "byte list \<Rightarrow> u32 list" where
  "be_words (a # b # c # d # bs) =
     (push_bit 24 (ucast a) OR push_bit 16 (ucast b) OR push_bit 8 (ucast c) OR ucast d)
       # be_words bs"
| "be_words _ = []"

text \<open>
  The message schedule: \<open>win\<close> holds the last sixteen words, newest first, so that
  \<open>W\<^sub>t\<^sub>-\<^sub>2\<close>, \<open>W\<^sub>t\<^sub>-\<^sub>7\<close>, \<open>W\<^sub>t\<^sub>-\<^sub>1\<^sub>5\<close> and \<open>W\<^sub>t\<^sub>-\<^sub>1\<^sub>6\<close> sit at positions 1, 6, 14 and 15.
\<close>

fun schedule :: "nat \<Rightarrow> u32 list \<Rightarrow> u32 list" where
  "schedule 0 win = []"
| "schedule (Suc n) win =
     (let w = ssig1 (win ! 1) + win ! 6 + ssig0 (win ! 14) + win ! 15
      in w # schedule n (w # take 15 win))"

definition expand :: "byte list \<Rightarrow> u32 list" where
  "expand block = (let ws = be_words block in ws @ schedule 48 (rev ws))"

fun round :: "regs \<Rightarrow> u32 \<times> u32 \<Rightarrow> regs" where
  "round (a, b, c, d, e, f, g, h) (k, w) =
     (let t1 = h + bsig1 e + Ch e f g + k + w;
          t2 = bsig0 a + Maj a b c
      in (t1 + t2, a, b, c, d + t1, e, f, g))"

fun add_regs :: "regs \<Rightarrow> regs \<Rightarrow> regs" where
  "add_regs (a, b, c, d, e, f, g, h) (a', b', c', d', e', f', g', h') =
     (a + a', b + b', c + c', d + d', e + e', f + f', g + g', h + h')"

definition compress :: "regs \<Rightarrow> byte list \<Rightarrow> regs" where
  "compress st block = add_regs st (foldl round st (zip K256 (expand block)))"

definition be_bytes32 :: "u32 \<Rightarrow> byte list" where
  "be_bytes32 w = [ucast (drop_bit 24 w), ucast (drop_bit 16 w), ucast (drop_bit 8 w), ucast w]"

definition be_bytes64 :: "64 word \<Rightarrow> byte list" where
  "be_bytes64 w = map (\<lambda>i. ucast (drop_bit (8 * i) w)) [7, 6, 5, 4, 3, 2, 1, 0]"

text \<open>The padding of a message of \<open>n\<close> bytes: one 1 bit, zeros, the bit length on 64 bits.\<close>

definition padding :: "nat \<Rightarrow> byte list" where
  "padding n = 0x80 # replicate ((119 - n mod 64) mod 64) 0 @ be_bytes64 (word_of_nat (8 * n))"

function blocks :: "byte list \<Rightarrow> byte list list" where
  "blocks bs = (if length bs < 64 then [] else take 64 bs # blocks (drop 64 bs))"
  by pat_completeness auto
termination
  by (relation "measure length") auto

declare blocks.simps [simp del]

fun regs_bytes :: "regs \<Rightarrow> byte list" where
  "regs_bytes (a, b, c, d, e, f, g, h) = concat (map be_bytes32 [a, b, c, d, e, f, g, h])"

text \<open>
  The digest of a whole message in one pass, as FIPS 180-4 defines it: pad, cut into 64-byte
  blocks, compress each block into the chaining value.
\<close>

definition sha256_onepass :: "byte list \<Rightarrow> byte list" where
  "sha256_onepass msg =
     regs_bytes (foldl compress H256 (blocks (msg @ padding (length msg))))"

definition hex_digit :: "nat \<Rightarrow> char" where
  "hex_digit n = ''0123456789abcdef'' ! n"

definition hex_byte :: "byte \<Rightarrow> string" where
  "hex_byte b = [hex_digit (unat (drop_bit 4 b)), hex_digit (unat (b AND 0x0f))]"

definition hexlify :: "byte list \<Rightarrow> string" where
  "hexlify bs = concat (map hex_byte bs)"

subsection \<open>The streaming hash object\<close>

text \<open>
  \<open>h = hashlib.sha256()\<close> keeps the chaining value, the bytes of the last incomplete block and
  the number of bytes seen. \<open>h.update(data)\<close> compresses every complete block and keeps the
  rest; \<open>h.hexdigest()\<close> pads what is left.
\<close>

record sha256_obj =
  chain :: regs
  pending :: "byte list"
  count :: nat

definition sha256_new :: sha256_obj where
  "sha256_new = \<lparr>chain = H256, pending = [], count = 0\<rparr>"

function absorb :: "regs \<Rightarrow> byte list \<Rightarrow> regs \<times> byte list" where
  "absorb st bs =
     (if length bs < 64 then (st, bs) else absorb (compress st (take 64 bs)) (drop 64 bs))"
  by pat_completeness auto
termination
  by (relation "measure (\<lambda>(st, bs). length bs)") auto

declare absorb.simps [simp del]

definition update :: "sha256_obj \<Rightarrow> byte list \<Rightarrow> sha256_obj" where
  "update h data =
     (case absorb (chain h) (pending h @ data) of
        (st, rest) \<Rightarrow> \<lparr>chain = st, pending = rest, count = count h + length data\<rparr>)"

definition digest :: "sha256_obj \<Rightarrow> byte list" where
  "digest h = regs_bytes (foldl compress (chain h) (blocks (pending h @ padding (count h))))"

definition hexdigest :: "sha256_obj \<Rightarrow> string" where
  "hexdigest h = hexlify (digest h)"

section \<open>The file system\<close>

text \<open>
  A file has its bytes and a fault: \<open>OpenFault\<close> makes \<open>open\<close> raise, \<open>ReadFault k\<close> makes
  every \<open>read\<close> issued at offset \<open>k\<close> or later raise. A directory lists its entries in the
  order the operating system returns them. The tree is a snapshot: it does not change while
  the script scans it.
\<close>

datatype fault = NoFault | OpenFault | ReadFault nat

datatype node =
    File fault "byte list"
  | Dir "(string \<times> node) list"

fun is_dir :: "node \<Rightarrow> bool" where
  "is_dir (Dir es) = True"
| "is_dir (File ft bs) = False"

text \<open>
  Top-level paths (the configuration file, the base directory) are keys of the file system:
  \<open>fs p\<close> is what the path \<open>p\<close> names, \<open>None\<close> when nothing exists there. Two
  different path strings are taken to name different objects. Writing is never refused.
\<close>

type_synonym fs = "string \<rightharpoonup> node"

datatype platform = Posix | Windows

fun sep :: "platform \<Rightarrow> char" where
  "sep Posix = CHR ''/''"
| "sep Windows = CHR 0x5C"

subsection \<open>\<open>sha256_file\<close>\<close>

text \<open>\<open>f.read(n)\<close> at offset \<open>pos\<close>: at most \<open>n\<close> bytes, empty at the end of the file.\<close>

definition read_at :: "fault \<Rightarrow> byte list \<Rightarrow> nat \<Rightarrow> nat \<Rightarrow> error + byte list" where
  "read_at ft bs pos n =
     (case ft of
        ReadFault k \<Rightarrow> if k \<le> pos then Inl IOError else Inr (take n (drop pos bs))
      | _ \<Rightarrow> Inr (take n (drop pos bs)))"

text \<open>
  \<open>for chunk in iter(lambda: f.read(n), b""): h.update(chunk)\<close>: read until a read returns
  the empty bytes.
\<close>

function feed :: "nat \<Rightarrow> fault \<Rightarrow> byte list \<Rightarrow> nat \<Rightarrow> sha256_obj \<Rightarrow> error + sha256_obj" where
  "feed n ft bs pos h =
     (case read_at ft bs pos n of
        Inl e \<Rightarrow> Inl e
      | Inr chunk \<Rightarrow>
          if chunk = [] then Inr h else feed n ft bs (pos + length chunk) (update h chunk))"
  by pat_completeness auto
termination
proof (relation "measure (\<lambda>(n, ft, bs, pos, h). length bs - pos)")
  show "wf (measure (\<lambda>(n, ft, bs, pos, h). length bs - pos))"
    by simp
next
  fix n :: nat and ft bs and pos :: nat and h :: sha256_obj and chunk :: "byte list"
  assume r: "read_at ft bs pos n = Inr chunk" and ne: "chunk \<noteq> []"
  from r have c: "chunk = take n (drop pos bs)"
    by (auto simp: read_at_def split: fault.splits if_splits)
  with ne have "pos < length bs"
    by auto
  with ne show "((n, ft, bs, pos + length chunk, update h chunk), (n, ft, bs, pos, h))
               \<in> measure (\<lambda>(n, ft, bs, pos, h). length bs - pos)"
    by (cases chunk) simp_all
qed

declare feed.simps [simp del]

text \<open>
  \<open>sha256_file\<close> with the chunk size as a parameter. The file at \<open>filepath\<close> is given by
  its fault and its bytes.
\<close>

definition sha256_stream :: "nat \<Rightarrow> fault \<Rightarrow> byte list \<Rightarrow> error + string" where
  "sha256_stream n ft bs =
     (if ft = OpenFault then Inl IOError
      else (case feed n ft bs 0 sha256_new of
              Inl e \<Rightarrow> Inl e
            | Inr h \<Rightarrow> Inr (hexdigest h)))"

definition sha256_file :: "fault \<Rightarrow> byte list \<Rightarrow> error + string" where
  "sha256_file ft bs = sha256_stream 8192 ft bs"


subsection \<open>\<open>scan_files\<close>\<close>

definition SCAN_DIRS :: "string list" where
  "SCAN_DIRS = [''mods'', ''resourcepacks'', ''shaderpacks'', ''config'']"

record file_record =
  path :: string
  sha256 :: string
  url :: string
  size_bytes :: nat
  required :: bool

text \<open>
  What the script prints, one value per \<open>print\<close> call, with the data the line is formatted
  from.
\<close>

datatype message =
    ConfigNotFound string
  | ConfigHint
  | MissingField string
  | Banner
  | ShowDirectory json
  | ShowBaseUrl json
  | ShowVersion json
  | ShowLoader json json
  | ShowServer json
  | Blank
  | Scanning
  | Progress string string nat
  | Found nat
  | Saved string string
  | Done

fun join_sep :: "char \<Rightarrow> string list \<Rightarrow> string" where
  "join_sep s [] = []"
| "join_sep s [c] = c"
| "join_sep s (c # cs) = c @ s # join_sep s cs"

definition replace_char :: "char \<Rightarrow> char \<Rightarrow> string \<Rightarrow> string" where
  "replace_char a b s = map (\<lambda>c. if c = a then b else c) s"

definition rstrip :: "char \<Rightarrow> string \<Rightarrow> string" where
  "rstrip c s = rev (dropWhile (\<lambda>x. x = c) (rev s))"

fun file_entries :: "(string \<times> node) list \<Rightarrow> (string \<times> fault \<times> byte list) list" where
  "file_entries [] = []"
| "file_entries ((n, File ft bs) # es) = (n, ft, bs) # file_entries es"
| "file_entries ((n, Dir ds) # es) = file_entries es"

fun dir_entries :: "(string \<times> node) list \<Rightarrow> (string \<times> node) list" where
  "dir_entries [] = []"
| "dir_entries ((n, File ft bs) # es) = dir_entries es"
| "dir_entries ((n, Dir ds) # es) = (n, Dir ds) # dir_entries es"

text \<open>
  \<open>os.walk(top)\<close>, top-down: the directory itself with the names of its subdirectories and
  of its other entries, then each subdirectory in turn. \<open>root\<close> is kept as the list of path
  components below the base directory, and each file name comes with the file it names.
\<close>

function walk :: "string list \<Rightarrow> node \<Rightarrow>
    (string list \<times> string list \<times> (string \<times> fault \<times> byte list) list) list" where
  "walk root (Dir es) =
     (root, map fst (dir_entries es), file_entries es)
       # concat (map (\<lambda>(n, c). walk (root @ [n]) c) (dir_entries es))"
| "walk root (File ft bs) = []"
  by pat_completeness auto
termination
proof (relation "measure (\<lambda>(root, nd). size nd)")
  show "wf (measure (\<lambda>(root, nd). size nd))"
    by simp
next
  fix root :: "string list" and es :: "(string \<times> node) list" and x :: "string \<times> node"
    and n :: string and c :: node
  assume mem: "x \<in> set (dir_entries es)" and x: "(n, c) = x"
  have "(n, c) \<in> set (dir_entries es) \<Longrightarrow> size c < Suc (size_list (size_prod (\<lambda>x. 0) size) es)"
    by (induction es rule: dir_entries.induct) auto
  with mem x show "((root @ [n], c), (root, Dir es)) \<in> measure (\<lambda>(root, nd). size nd)"
    by simp
qed

declare walk.simps [simp del]

text \<open>
  Line 34. \<open>os.path.relpath(os.path.join(root, filename), base_dir)\<close> is the components of
  \<open>root\<close> below the base directory and the file name, joined by the separator of the
  platform; \<open>comps\<close> is that list of components.
\<close>

definition rel_path :: "platform \<Rightarrow> string list \<Rightarrow> string" where
  "rel_path pf comps = replace_char (CHR 0x5C) (CHR ''/'') (join_sep (sep pf) comps)"

text \<open>Lines 33 to 46, the body of the loop over \<open>filenames\<close>.\<close>

definition scan_file :: "platform \<Rightarrow> json \<Rightarrow> string \<Rightarrow> string list \<Rightarrow>
    string \<times> fault \<times> byte list \<Rightarrow> error + file_record \<times> message" where
  "scan_file pf base_url scan_dir root entry =
     (case entry of (filename, ft, bs) \<Rightarrow>
        let rp = rel_path pf (root @ [filename]);
            sz = length bs
        in case sha256_file ft bs of
             Inl e \<Rightarrow> Inl e
           | Inr digest_hex \<Rightarrow>
               (case base_url of
                  JStr u \<Rightarrow>
                    Inr (\<lparr>path = rp, sha256 = digest_hex,
                          url = rstrip (CHR ''/'') u @ ''/'' @ rp,
                          size_bytes = sz, required = True\<rparr>,
                         Progress scan_dir filename sz)
                | _ \<Rightarrow> Inl AttributeError))"

text \<open>
  The three nested loops. Each takes the list \<open>files\<close> and the output so far and returns
  them extended; an exception stops the loop and is returned with what was printed before.
\<close>

fun scan_filenames :: "platform \<Rightarrow> json \<Rightarrow> string \<Rightarrow> string list \<Rightarrow>
    (string \<times> fault \<times> byte list) list \<Rightarrow> file_record list \<Rightarrow> message list \<Rightarrow>
    error option \<times> file_record list \<times> message list" where
  "scan_filenames pf base_url scan_dir root [] fl out = (None, fl, out)"
| "scan_filenames pf base_url scan_dir root (entry # entries) fl out =
     (case scan_file pf base_url scan_dir root entry of
        Inl e \<Rightarrow> (Some e, fl, out)
      | Inr (r, line) \<Rightarrow>
          scan_filenames pf base_url scan_dir root entries (fl @ [r]) (out @ [line]))"

fun scan_walk :: "platform \<Rightarrow> json \<Rightarrow> string \<Rightarrow>
    (string list \<times> string list \<times> (string \<times> fault \<times> byte list) list) list \<Rightarrow>
    file_record list \<Rightarrow> message list \<Rightarrow> error option \<times> file_record list \<times> message list" where
  "scan_walk pf base_url scan_dir [] fl out = (None, fl, out)"
| "scan_walk pf base_url scan_dir ((root, dirnames, filenames) # rest) fl out =
     (case scan_filenames pf base_url scan_dir root filenames fl out of
        (Some e, fl', out') \<Rightarrow> (Some e, fl', out')
      | (None, fl', out') \<Rightarrow> scan_walk pf base_url scan_dir rest fl' out')"

text \<open>What \<open>os.path.join(base_dir, scan_dir)\<close> names.\<close>

definition full_dir :: "fs \<Rightarrow> string \<Rightarrow> string \<Rightarrow> node option" where
  "full_dir fs base_dir scan_dir =
     (case fs base_dir of Some (Dir es) \<Rightarrow> map_of es scan_dir | _ \<Rightarrow> None)"

fun scan_dirs :: "platform \<Rightarrow> fs \<Rightarrow> json \<Rightarrow> json \<Rightarrow> string list \<Rightarrow>
    file_record list \<Rightarrow> message list \<Rightarrow> error option \<times> file_record list \<times> message list" where
  "scan_dirs pf fs base_dir base_url [] fl out = (None, fl, out)"
| "scan_dirs pf fs base_dir base_url (scan_dir # rest) fl out =
     (case base_dir of
        JStr d \<Rightarrow>
          (case full_dir fs d scan_dir of
             Some (Dir es) \<Rightarrow>
               (case scan_walk pf base_url scan_dir (walk [scan_dir] (Dir es)) fl out of
                  (Some e, fl', out') \<Rightarrow> (Some e, fl', out')
                | (None, fl', out') \<Rightarrow> scan_dirs pf fs base_dir base_url rest fl' out')
           | _ \<Rightarrow> scan_dirs pf fs base_dir base_url rest fl out)
      | _ \<Rightarrow> (Some TypeError, fl, out))"

definition scan_files :: "platform \<Rightarrow> fs \<Rightarrow> json \<Rightarrow> json \<Rightarrow>
    message list \<times> (error + file_record list)" where
  "scan_files pf fs base_dir base_url =
     (case scan_dirs pf fs base_dir base_url SCAN_DIRS [] [] of
        (Some e, fl, out) \<Rightarrow> (out, Inl e)
      | (None, fl, out) \<Rightarrow> (out, Inr fl))"

subsection \<open>\<open>generate\<close>\<close>

record mod_loader =
  type :: json
  version :: json

record manifest =
  mc_version :: json
  mod_loader :: mod_loader
  files :: "file_record list"
  java_args :: json
  server_address :: json

text \<open>\<open>config[key]\<close> and \<open>config.get(key, default)\<close> on a loaded JSON value.\<close>

fun subscript :: "json \<Rightarrow> string \<Rightarrow> error + json" where
  "subscript (JObj kvs) key = (case map_of kvs key of None \<Rightarrow> Inl (KeyError key) | Some v \<Rightarrow> Inr v)"
| "subscript other key = Inl TypeError"

fun get :: "json \<Rightarrow> string \<Rightarrow> json \<Rightarrow> error + json" where
  "get (JObj kvs) key dflt = (case map_of kvs key of None \<Rightarrow> Inr dflt | Some v \<Rightarrow> Inr v)"
| "get other key dflt = Inl AttributeError"

fun truthy :: "json \<Rightarrow> bool" where
  "truthy JNull = False"
| "truthy (JBool b) = b"
| "truthy (JInt i) = (i \<noteq> 0)"
| "truthy (JFloat w) = (push_bit 1 w \<noteq> 0)"
| "truthy (JStr s) = (s \<noteq> [])"
| "truthy (JArr xs) = (xs \<noteq> [])"
| "truthy (JObj kvs) = (kvs \<noteq> [])"

text \<open>\<open>x or y\<close>.\<close>

definition py_or :: "json \<Rightarrow> json \<Rightarrow> json" where
  "py_or x y = (if truthy x then x else y)"

definition and_then :: "error + 'a \<Rightarrow> ('a \<Rightarrow> error + 'b) \<Rightarrow> error + 'b" where
  "and_then r f = (case r of Inl e \<Rightarrow> Inl e | Inr x \<Rightarrow> f x)"

text \<open>Lines 50 to 56: the seven local variables read from the configuration.\<close>

definition config_fields :: "json \<Rightarrow> error + json \<times> json \<times> json \<times> json \<times> json \<times> json \<times> json" where
  "config_fields config =
     and_then (subscript config ''dir'') (\<lambda>base_dir.
     and_then (subscript config ''base_url'') (\<lambda>base_url.
     and_then (subscript config ''mc_version'') (\<lambda>mc_ver.
     and_then (get config ''loader_type'' (JStr ''vanilla'')) (\<lambda>loader_type.
     and_then (get config ''loader_version'' (JStr [])) (\<lambda>loader_version.
     and_then (get config ''java_args'' (JStr ''-Xmx4G -Xms2G'')) (\<lambda>jargs.
     and_then (get config ''server_address'' (JStr [])) (\<lambda>addr.
       Inr (base_dir, base_url, mc_ver, loader_type, loader_version, jargs,
            py_or addr JNull))))))))"

text \<open>Lines 70 to 79.\<close>

definition build_manifest :: "json \<Rightarrow> json \<Rightarrow> json \<Rightarrow> json \<Rightarrow> json \<Rightarrow> file_record list \<Rightarrow> manifest" where
  "build_manifest mc_ver loader_type loader_version jargs addr fl =
     \<lparr>mc_version = mc_ver,
      mod_loader = \<lparr>type = loader_type, version = loader_version\<rparr>,
      files = fl,
      java_args = jargs,
      server_address = addr\<rparr>"

text \<open>\<open>os.makedirs(base_dir, exist_ok=True)\<close>.\<close>

definition makedirs :: "fs \<Rightarrow> string \<Rightarrow> error + fs" where
  "makedirs fs d =
     (if d = [] then Inl FileNotFoundError
      else case fs d of
             None \<Rightarrow> Inr (fs(d \<mapsto> Dir []))
           | Some (Dir es) \<Rightarrow> Inr fs
           | Some (File ft bs) \<Rightarrow> Inl FileExistsError)"

text \<open>
  \<open>open(name, "w")\<close> in a directory and writing \<open>bs\<close>: an existing file is replaced, a new
  one is added.
\<close>

fun put_entry :: "string \<Rightarrow> byte list \<Rightarrow> (string \<times> node) list \<Rightarrow> error + (string \<times> node) list" where
  "put_entry name bs [] = Inr [(name, File NoFault bs)]"
| "put_entry name bs ((n, nd) # es) =
     (if n = name then
        (case nd of Dir ds \<Rightarrow> Inl IsADirectoryError | File ft old \<Rightarrow> Inr ((n, File ft bs) # es))
      else and_then (put_entry name bs es) (\<lambda>es'. Inr ((n, nd) # es')))"

text \<open>Lines 81 to 84.\<close>

definition write_manifest :: "fs \<Rightarrow> json \<Rightarrow> byte list \<Rightarrow> error + fs" where
  "write_manifest fs base_dir bs =
     (case base_dir of
        JStr d \<Rightarrow>
          and_then (makedirs fs d) (\<lambda>fs1.
            case fs1 d of
              Some (Dir es) \<Rightarrow>
                and_then (put_entry ''manifest.json'' bs es) (\<lambda>es'. Inr (fs1(d \<mapsto> Dir es')))
            | _ \<Rightarrow> Inl FileNotFoundError)
      | _ \<Rightarrow> Inl TypeError)"

text \<open>
  \<open>generate(config)\<close>. \<open>dump m\<close> is the text that
  \<open>json.dump(manifest, f, indent=2, ensure_ascii=False)\<close> writes for the manifest \<open>m\<close>,
  encoded in UTF-8; it is a parameter.
\<close>

definition generate :: "(manifest \<Rightarrow> byte list) \<Rightarrow> platform \<Rightarrow> fs \<Rightarrow> json \<Rightarrow>
    message list \<times> error option \<times> fs" where
  "generate dump pf fs config =
     (case config_fields config of
        Inl e \<Rightarrow> ([], Some e, fs)
      | Inr (base_dir, base_url, mc_ver, loader_type, loader_version, jargs, addr) \<Rightarrow>
          let head = [Banner, ShowDirectory base_dir, ShowBaseUrl base_url, ShowVersion mc_ver,
                      ShowLoader loader_type loader_version,
                      ShowServer (py_or addr (JStr ''(none)'')), Blank, Scanning]
          in case scan_files pf fs base_dir base_url of
               (out, Inl e) \<Rightarrow> (head @ out, Some e, fs)
             | (out, Inr fl) \<Rightarrow>
                 let out1 = head @ out @ [Found (length fl)];
                     m = build_manifest mc_ver loader_type loader_version jargs addr fl
                 in (case write_manifest fs base_dir (dump m) of
                       Inl e \<Rightarrow> (out1, Some e, fs)
                     | Inr fs' \<Rightarrow>
                         (out1 @ [Saved (case base_dir of JStr d \<Rightarrow> d | _ \<Rightarrow> [])
                                    ''manifest.json'', Done],
                          None, fs')))"

subsection \<open>\<open>main\<close>\<close>

fun infix_of :: "string \<Rightarrow> string \<Rightarrow> bool" where
  "infix_of k [] = (k = [])"
| "infix_of k (c # cs) = (take (length k) (c # cs) = k \<or> infix_of k cs)"

text \<open>\<open>key in config\<close>.\<close>

fun contains :: "json \<Rightarrow> string \<Rightarrow> error + bool" where
  "contains (JObj kvs) key = Inr (key \<in> set (map fst kvs))"
| "contains (JArr xs) key = Inr (JStr key \<in> set xs)"
| "contains (JStr s) key = Inr (infix_of key s)"
| "contains other key = Inl TypeError"

text \<open>Lines 106 to 110: the first required key that is not in the configuration.\<close>

fun check_required :: "json \<Rightarrow> string list \<Rightarrow> error + string option" where
  "check_required config [] = Inr None"
| "check_required config (key # keys) =
     (case contains config key of
        Inl e \<Rightarrow> Inl e
      | Inr present \<Rightarrow> if \<not> present then Inr (Some key) else check_required config keys)"

text \<open>\<open>f.read()\<close> of a whole file.\<close>

definition read_all :: "fault \<Rightarrow> byte list \<Rightarrow> error + byte list" where
  "read_all ft bs =
     (case ft of
        NoFault \<Rightarrow> Inr bs
      | OpenFault \<Rightarrow> Inl IOError
      | ReadFault k \<Rightarrow> if k \<le> length bs then Inl IOError else Inr bs)"

datatype outcome = Returned | SysExit nat | Uncaught error


text \<open>Lines 91 to 95: \<open>arg\<close> is the value of \<open>--config\<close> when the option is given.\<close>

definition config_path_of :: "string option \<Rightarrow> string" where
  "config_path_of arg = (case arg of None \<Rightarrow> ''manifest_config.json'' | Some p \<Rightarrow> p)"

text \<open>
  \<open>main()\<close>. \<open>load bs\<close> is what \<open>json.load\<close> returns for a file of bytes \<open>bs\<close>, \<open>None\<close>
  when it raises.
\<close>

definition main :: "(byte list \<Rightarrow> json option) \<Rightarrow> (manifest \<Rightarrow> byte list) \<Rightarrow> platform \<Rightarrow>
    string option \<Rightarrow> fs \<Rightarrow> message list \<times> outcome \<times> fs" where
  "main load dump pf arg fs =
     (let config_path = config_path_of arg
      in case fs config_path of
           None \<Rightarrow> ([ConfigNotFound config_path, ConfigHint], SysExit 1, fs)
         | Some (Dir es) \<Rightarrow> ([], Uncaught IsADirectoryError, fs)
         | Some (File ft bs) \<Rightarrow>
             (case read_all ft bs of
                Inl e \<Rightarrow> ([], Uncaught e, fs)
              | Inr content \<Rightarrow>
                  (case load content of
                     None \<Rightarrow> ([], Uncaught JSONDecodeError, fs)
                   | Some config \<Rightarrow>
                       (case check_required config [''dir'', ''base_url'', ''mc_version''] of
                          Inl e \<Rightarrow> ([], Uncaught e, fs)
                        | Inr (Some key) \<Rightarrow> ([MissingField key], SysExit 1, fs)
                        | Inr None \<Rightarrow>
                            (case generate dump pf fs config of
                               (out, Some e, fs') \<Rightarrow> (out, Uncaught e, fs')
                             | (out, None, fs') \<Rightarrow> (out, Returned, fs'))))))"

section \<open>Notions used in the statements\<close>

text \<open>The hash object after the bytes \<open>msg\<close> have been fed to it.\<close>

definition absorbed :: "byte list \<Rightarrow> sha256_obj" where
  "absorbed msg =
     (case absorb H256 msg of (st, rest) \<Rightarrow> \<lparr>chain = st, pending = rest, count = length msg\<rparr>)"

text \<open>A file that can be opened and read to its end.\<close>

definition can_read :: "fault \<Rightarrow> byte list \<Rightarrow> bool" where
  "can_read ft bs =
     (case ft of NoFault \<Rightarrow> True | OpenFault \<Rightarrow> False | ReadFault k \<Rightarrow> length bs < k)"

definition readable :: "'a \<times> fault \<times> byte list \<Rightarrow> bool" where
  "readable item = (case item of (p, ft, bs) \<Rightarrow> can_read ft bs)"

text \<open>
  The files a scan visits, in the order it visits them, each with its path components below
  the base directory.
\<close>

definition under :: "string list \<Rightarrow> string \<times> fault \<times> byte list \<Rightarrow>
    string list \<times> fault \<times> byte list" where
  "under root entry = (case entry of (n, ft, bs) \<Rightarrow> (root @ [n], ft, bs))"

definition walk_items ::
  "(string list \<times> string list \<times> (string \<times> fault \<times> byte list) list) list \<Rightarrow>
    (string list \<times> fault \<times> byte list) list" where
  "walk_items w = concat (map (\<lambda>(root, dirnames, filenames). map (under root) filenames) w)"

definition scanned :: "fs \<Rightarrow> string \<Rightarrow> string list \<Rightarrow> (string list \<times> fault \<times> byte list) list" where
  "scanned fs d sds =
     concat (map (\<lambda>sd. case full_dir fs d sd of
                          Some (Dir es) \<Rightarrow> walk_items (walk [sd] (Dir es))
                        | _ \<Rightarrow> []) sds)"

text \<open>The record of a readable file, with the digest taken over the whole content at once.\<close>

definition mk_record :: "platform \<Rightarrow> string \<Rightarrow> string list \<times> fault \<times> byte list \<Rightarrow> file_record" where
  "mk_record pf u item =
     (case item of (comps, ft, bs) \<Rightarrow>
        \<lparr>path = rel_path pf comps, sha256 = hexlify (sha256_onepass bs),
         url = rstrip (CHR ''/'') u @ ''/'' @ rel_path pf comps,
         size_bytes = length bs, required = True\<rparr>)"

text \<open>
  The example of the specification: \<open>mods/a.jar\<close> holds the four bytes of \<open>test\<close>,
  \<open>config/settings.txt\<close> is empty.
\<close>

definition example_fs :: fs where
  "example_fs =
     [''pack'' \<mapsto>
        Dir [(''mods'', Dir [(''a.jar'', File NoFault [0x74, 0x65, 0x73, 0x74])]),
             (''config'', Dir [(''settings.txt'', File NoFault [])])]]"

definition example_config :: json where
  "example_config =
     JObj [(''dir'', JStr ''pack''), (''base_url'', JStr ''http://example.com/pack''),
           (''mc_version'', JStr ''1.20.1'')]"

definition example_records :: "file_record list" where
  "example_records =
     [\<lparr>path = ''mods/a.jar'',
       sha256 = ''9f86d081884c7d659a2feaa0c55ad015a3bf4f1b2b0b822cd15d6c15b0f00a08'',
       url = ''http://example.com/pack/mods/a.jar'', size_bytes = 4, required = True\<rparr>,
      \<lparr>path = ''config/settings.txt'',
       sha256 = ''e3b0c44298fc1c149afbf4c8996fb92427ae41e4649b934ca495991b7852b855'',
       url = ''http://example.com/pack/config/settings.txt'', size_bytes = 0, required = True\<rparr>]"

text \<open>
  A record whose URL is the base URL without its trailing slashes, a slash and the path, and
  whose path holds no backslash.
\<close>

definition url_ok :: "json \<Rightarrow> file_record \<Rightarrow> bool" where
  "url_ok base_url r =
     (case base_url of
        JStr u \<Rightarrow> url r = rstrip (CHR ''/'') u @ ''/'' @ path r \<and> CHR 0x5C \<notin> set (path r)
      | _ \<Rightarrow> False)"




text \<open>
  Concrete inputs for the examples: the text of a configuration file with the three required
  keys, a loader that reads this text, the text of an empty object and nothing else, the files
  of the example tree, a tree whose only file cannot be opened, and file systems that hold only
  a configuration file.
\<close>

definition example_config_bytes :: "byte list" where
  "example_config_bytes =
     [0x7B, 0x22, 0x64, 0x69, 0x72, 0x22, 0x3A, 0x20, 0x22, 0x70, 0x61, 0x63,
      0x6B, 0x22, 0x2C, 0x20, 0x22, 0x62, 0x61, 0x73, 0x65, 0x5F, 0x75, 0x72,
      0x6C, 0x22, 0x3A, 0x20, 0x22, 0x68, 0x74, 0x74, 0x70, 0x3A, 0x2F, 0x2F,
      0x65, 0x78, 0x61, 0x6D, 0x70, 0x6C, 0x65, 0x2E, 0x63, 0x6F, 0x6D, 0x2F,
      0x70, 0x61, 0x63, 0x6B, 0x22, 0x2C, 0x20, 0x22, 0x6D, 0x63, 0x5F, 0x76,
      0x65, 0x72, 0x73, 0x69, 0x6F, 0x6E, 0x22, 0x3A, 0x20, 0x22, 0x31, 0x2E,
      0x32, 0x30, 0x2E, 0x31, 0x22, 0x7D]"

definition example_load :: "byte list \<Rightarrow> json option" where
  "example_load bs =
     (if bs = example_config_bytes then Some example_config
      else if bs = [0x7B, 0x7D] then Some (JObj [])
      else None)"

definition example_items :: "(string list \<times> fault \<times> byte list) list" where
  "example_items =
     [([''mods'', ''a.jar''], NoFault, [0x74, 0x65, 0x73, 0x74]),
      ([''config'', ''settings.txt''], NoFault, [])]"

definition faulty_fs :: fs where
  "faulty_fs =
     [''pack'' \<mapsto> Dir [(''mods'', Dir [(''a.jar'', File OpenFault [0x74, 0x65, 0x73, 0x74])])],
      ''manifest_config.json'' \<mapsto> File NoFault example_config_bytes]"





section \<open>The streamed digest\<close>

lemma absorb_append:
  "absorb st (a @ b) = (case absorb st a of (st', r) \<Rightarrow> absorb st' (r @ b))"
proof (induction st a rule: absorb.induct)
  case (1 st bs)
  show ?case
  proof (cases "length bs < 64")
    case True
    then show ?thesis by (simp add: absorb.simps [of st bs])
  next
    case False
    then have "absorb st (bs @ b) = absorb (compress st (take 64 bs)) (drop 64 bs @ b)"
      by (simp add: absorb.simps [of st "bs @ b"])
    with False 1 show ?thesis
      by (simp add: absorb.simps [of st bs])
  qed
qed

lemma blocks_absorb:
  "foldl compress st (blocks (m @ p)) =
     (case absorb st m of (st', r) \<Rightarrow> foldl compress st' (blocks (r @ p)))"
proof (induction st m rule: absorb.induct)
  case (1 st bs)
  show ?case
  proof (cases "length bs < 64")
    case True
    then show ?thesis by (simp add: absorb.simps [of st bs])
  next
    case False
    then have "blocks (bs @ p) = take 64 bs # blocks (drop 64 bs @ p)"
      by (simp add: blocks.simps [of "bs @ p"])
    with False 1 show ?thesis
      by (simp add: absorb.simps [of st bs])
  qed
qed

lemma absorbed_Nil: "absorbed [] = sha256_new"
  by (simp add: absorbed_def sha256_new_def absorb.simps [of H256 "[]"])

lemma update_absorbed: "update (absorbed m) d = absorbed (m @ d)"
  by (simp add: update_def absorbed_def absorb_append [of H256 m d] split: prod.splits)

lemma digest_absorbed: "digest (absorbed m) = sha256_onepass m"
  by (simp add: digest_def sha256_onepass_def absorbed_def blocks_absorb [of H256 m] split: prod.splits)

lemma feed_absorbed:
  "h = absorbed (take pos bs) \<Longrightarrow> pos \<le> length bs \<Longrightarrow> 1 \<le> n \<Longrightarrow> ft \<noteq> OpenFault \<Longrightarrow>
   feed n ft bs pos h = (if can_read ft bs then Inr (absorbed bs) else Inl IOError)"
proof (induction n ft bs pos h rule: feed.induct)
  case (1 n ft bs pos h)
  show ?case
  proof (cases "read_at ft bs pos n")
    case (Inl e)
    then have f: "feed n ft bs pos h = Inl e"
      by (simp add: feed.simps [of n ft bs pos h])
    from Inl 1(3) have "e = IOError \<and> \<not> can_read ft bs"
      by (auto simp: read_at_def can_read_def split: fault.splits if_splits)
    with f show ?thesis by simp
  next
    case (Inr chunk)
    then have chunk: "chunk = take n (drop pos bs)"
      by (auto simp: read_at_def split: fault.splits if_splits)
    show ?thesis
    proof (cases "chunk = []")
      case True
      with chunk 1(3,4) have pos: "pos = length bs" by auto
      from True Inr have f: "feed n ft bs pos h = Inr h"
        by (simp add: feed.simps [of n ft bs pos h])
      from Inr pos 1(5) have "can_read ft bs"
        by (auto simp: read_at_def can_read_def split: fault.splits if_splits)
      with f pos 1(2) show ?thesis by simp
    next
      case False
      have "take (pos + length chunk) bs = take pos bs @ chunk"
        unfolding chunk by (simp add: take_add min_def)
      then have h': "update h chunk = absorbed (take (pos + length chunk) bs)"
        using 1 by (simp add: update_absorbed)
      have le: "pos + length chunk \<le> length bs"
        unfolding chunk using 1 by simp
      have "feed n ft bs (pos + length chunk) (update h chunk) =
              (if can_read ft bs then Inr (absorbed bs) else Inl IOError)"
        using 1 Inr False h' le by blast
      with Inr False show ?thesis
        by (simp add: feed.simps [of n ft bs pos h])
    qed
  qed
qed

lemma sha256_stream_eq:
  "1 \<le> n \<Longrightarrow>
   sha256_stream n ft bs =
     (if can_read ft bs then Inr (hexlify (sha256_onepass bs)) else Inl IOError)"
  using feed_absorbed [of sha256_new 0 bs n ft]
  by (auto simp: sha256_stream_def hexdigest_def digest_absorbed absorbed_Nil can_read_def)

section \<open>What a scan returns\<close>

lemma sha256_file_eq:
  "sha256_file ft bs = (if can_read ft bs then Inr (hexlify (sha256_onepass bs)) else Inl IOError)"
  by (simp add: sha256_file_def sha256_stream_eq)

lemma scan_file_JStr:
  "scan_file pf (JStr u) sd root entry =
     (if readable entry
      then Inr (mk_record pf u (under root entry), Progress sd (fst entry) (length (snd (snd entry))))
      else Inl IOError)"
  by (cases entry)
     (simp add: scan_file_def sha256_file_eq readable_def mk_record_def under_def Let_def)

lemma readable_under: "readable (under root entry) = readable entry"
  by (cases entry) (simp add: readable_def under_def)

lemma list_all_readable_under: "list_all readable (map (under root) entries) = list_all readable entries"
  by (induction entries) (simp_all add: readable_under)

lemma scan_filenames_ok:
  "list_all readable entries \<Longrightarrow>
   \<exists>out'. scan_filenames pf (JStr u) sd root entries fl out =
     (None, fl @ map (mk_record pf u \<circ> under root) entries, out')"
proof (induction entries arbitrary: fl out)
  case Nil
  then show ?case by simp
next
  case (Cons e entries)
  then have r: "readable e" and rs: "list_all readable entries"
    by simp_all
  from Cons.IH [OF rs, of "fl @ [mk_record pf u (under root e)]"
      "out @ [Progress sd (fst e) (length (snd (snd e)))]"]
  show ?case
    by (simp add: scan_file_JStr r)
qed

lemma scan_filenames_fail:
  "\<not> list_all readable entries \<Longrightarrow>
   fst (scan_filenames pf (JStr u) sd root entries fl out) = Some IOError"
  by (induction entries arbitrary: fl out) (auto simp: scan_file_JStr)

lemma walk_items_Cons:
  "walk_items ((root, dirnames, filenames) # rest) = map (under root) filenames @ walk_items rest"
  by (simp add: walk_items_def)

lemma walk_items_Nil: "walk_items [] = []"
  by (simp add: walk_items_def)

lemma scan_walk_ok:
  "list_all readable (walk_items w) \<Longrightarrow>
   \<exists>out'. scan_walk pf (JStr u) sd w fl out = (None, fl @ map (mk_record pf u) (walk_items w), out')"
proof (induction w arbitrary: fl out)
  case Nil
  then show ?case by (simp add: walk_items_Nil)
next
  case (Cons a w)
  obtain root dirnames filenames where a: "a = (root, dirnames, filenames)"
    by (cases a) auto
  from Cons.prems a have r1: "list_all readable filenames" and r2: "list_all readable (walk_items w)"
    by (simp_all add: walk_items_Cons list_all_readable_under)
  from scan_filenames_ok [OF r1, of pf u sd root fl out] obtain out1 where
    o1: "scan_filenames pf (JStr u) sd root filenames fl out =
           (None, fl @ map (mk_record pf u \<circ> under root) filenames, out1)"
    by blast
  from Cons.IH [OF r2, of "fl @ map (mk_record pf u \<circ> under root) filenames" out1]
  show ?case
    by (auto simp: a o1 walk_items_Cons)
qed

lemma scan_walk_fail:
  "\<not> list_all readable (walk_items w) \<Longrightarrow>
   fst (scan_walk pf (JStr u) sd w fl out) = Some IOError"
proof (induction w arbitrary: fl out)
  case Nil
  then show ?case by (simp add: walk_items_Nil)
next
  case (Cons a w)
  obtain root dirnames filenames where a: "a = (root, dirnames, filenames)"
    by (cases a) auto
  show ?case
  proof (cases "list_all readable filenames")
    case True
    with Cons.prems a have r2: "\<not> list_all readable (walk_items w)"
      by (simp add: walk_items_Cons list_all_readable_under)
    from scan_filenames_ok [OF True, of pf u sd root fl out] obtain out1 where
      o1: "scan_filenames pf (JStr u) sd root filenames fl out =
             (None, fl @ map (mk_record pf u \<circ> under root) filenames, out1)"
      by blast
    from Cons.IH [OF r2] show ?thesis
      by (simp add: a o1)
  next
    case False
    from scan_filenames_fail [OF False, of pf u sd root fl out] show ?thesis
      by (auto simp: a split: prod.splits option.splits)
  qed
qed

lemma scanned_Nil: "scanned fs d [] = []"
  by (simp add: scanned_def)

lemma scanned_Cons:
  "scanned fs d (sd # sds) =
     (case full_dir fs d sd of Some (Dir es) \<Rightarrow> walk_items (walk [sd] (Dir es)) | _ \<Rightarrow> [])
       @ scanned fs d sds"
  by (simp add: scanned_def)

lemma scan_dirs_ok:
  "list_all readable (scanned fs d sds) \<Longrightarrow>
   \<exists>out'. scan_dirs pf fs (JStr d) (JStr u) sds fl out =
     (None, fl @ map (mk_record pf u) (scanned fs d sds), out')"
proof (induction sds arbitrary: fl out)
  case Nil
  then show ?case by (simp add: scanned_Nil)
next
  case (Cons sd sds)
  show ?case
  proof (cases "\<exists>es. full_dir fs d sd = Some (Dir es)")
    case True
    then obtain es where es: "full_dir fs d sd = Some (Dir es)" by blast
    with Cons.prems have r1: "list_all readable (walk_items (walk [sd] (Dir es)))"
      and r2: "list_all readable (scanned fs d sds)"
      by (auto simp: scanned_Cons)
    from scan_walk_ok [OF r1, of pf u sd fl out] obtain out1 where
      o1: "scan_walk pf (JStr u) sd (walk [sd] (Dir es)) fl out =
             (None, fl @ map (mk_record pf u) (walk_items (walk [sd] (Dir es))), out1)"
      by blast
    from Cons.IH [OF r2, of "fl @ map (mk_record pf u) (walk_items (walk [sd] (Dir es)))" out1]
    show ?thesis
      by (auto simp: es o1 scanned_Cons)
  next
    case False
    with Cons.prems have r2: "list_all readable (scanned fs d sds)"
      by (auto simp: scanned_Cons split: option.splits node.splits)
    from False Cons.IH [OF r2, of fl out] show ?thesis
      by (auto simp: scanned_Cons split: option.splits node.splits)
  qed
qed

lemma scan_dirs_fail:
  "\<not> list_all readable (scanned fs d sds) \<Longrightarrow>
   fst (scan_dirs pf fs (JStr d) (JStr u) sds fl out) = Some IOError"
proof (induction sds arbitrary: fl out)
  case Nil
  then show ?case by (simp add: scanned_Nil)
next
  case (Cons sd sds)
  show ?case
  proof (cases "\<exists>es. full_dir fs d sd = Some (Dir es)")
    case True
    then obtain es where es: "full_dir fs d sd = Some (Dir es)" by blast
    show ?thesis
    proof (cases "list_all readable (walk_items (walk [sd] (Dir es)))")
      case r1: True
      with Cons.prems es have r2: "\<not> list_all readable (scanned fs d sds)"
        by (auto simp: scanned_Cons)
      from scan_walk_ok [OF r1, of pf u sd fl out] obtain out1 where
        o1: "scan_walk pf (JStr u) sd (walk [sd] (Dir es)) fl out =
               (None, fl @ map (mk_record pf u) (walk_items (walk [sd] (Dir es))), out1)"
        by blast
      from Cons.IH [OF r2] show ?thesis
        by (simp add: es o1)
    next
      case False
      from scan_walk_fail [OF False, of pf u sd fl out] show ?thesis
        by (auto simp: es split: prod.splits option.splits)
    qed
  next
    case False
    with Cons.prems have r2: "\<not> list_all readable (scanned fs d sds)"
      by (auto simp: scanned_Cons split: option.splits node.splits)
    from False Cons.IH [OF r2, of fl out] show ?thesis
      by (auto simp: split: option.splits node.splits)
  qed
qed

lemma scan_files_ok:
  "list_all readable (scanned fs d SCAN_DIRS) \<Longrightarrow>
   \<exists>out. scan_files pf fs (JStr d) (JStr u) =
     (out, Inr (map (mk_record pf u) (scanned fs d SCAN_DIRS)))"
  using scan_dirs_ok [of fs d SCAN_DIRS pf u "[]" "[]"]
  by (auto simp: scan_files_def)

lemma scan_files_fail:
  "\<not> list_all readable (scanned fs d SCAN_DIRS) \<Longrightarrow>
   \<exists>out. scan_files pf fs (JStr d) (JStr u) = (out, Inl IOError)"
  using scan_dirs_fail [of fs d SCAN_DIRS pf u "[]" "[]"]
  by (auto simp: scan_files_def split: prod.splits option.splits)

text \<open>
  C4. For a file that can be read to its end, the digest that \<open>sha256_file\<close> streams in
  chunks of 8192 bytes is the SHA-256 digest of the whole content taken in one pass, and
  the same holds for every chunk size of at least one byte.
\<close>

theorem sha256_file_chunk_size_irrelevant:
  assumes "can_read ft bs"
  shows "sha256_file ft bs = Inr (hexlify (sha256_onepass bs)) \<and>
         (\<forall>n. 1 \<le> n \<longrightarrow> sha256_stream n ft bs = Inr (hexlify (sha256_onepass bs)))"
  using assms by (simp add: sha256_file_def sha256_stream_eq)

theorem sha256_file_chunk_size_irrelevant_witness:
  "can_read NoFault [0x61, 0x62, 0x63] \<and>
   sha256_file NoFault [0x61, 0x62, 0x63] = Inr (hexlify (sha256_onepass [0x61, 0x62, 0x63])) \<and>
   sha256_stream 1 NoFault [0x61, 0x62, 0x63] = Inr (hexlify (sha256_onepass [0x61, 0x62, 0x63])) \<and>
   sha256_stream 2 NoFault [0x61, 0x62, 0x63] = sha256_stream 3 NoFault [0x61, 0x62, 0x63]"
proof -
  have r: "can_read NoFault [0x61, 0x62, 0x63]"
    by (simp add: can_read_def)
  from sha256_file_chunk_size_irrelevant [OF r] r show ?thesis
    by simp
qed

section \<open>The example of the specification\<close>

lemma sha256_file_test:
  "sha256_file NoFault [0x74, 0x65, 0x73, 0x74] =
     Inr ''9f86d081884c7d659a2feaa0c55ad015a3bf4f1b2b0b822cd15d6c15b0f00a08''"
  by code_simp

lemma sha256_file_empty:
  "sha256_file NoFault [] =
     Inr ''e3b0c44298fc1c149afbf4c8996fb92427ae41e4649b934ca495991b7852b855''"
  by code_simp

lemma scan_files_example_value:
  "scan_files pf example_fs (JStr ''pack'') (JStr ''http://example.com/pack'') =
     ([Progress ''mods'' ''a.jar'' 4, Progress ''config'' ''settings.txt'' 0],
      Inr example_records)"
  by (cases pf)
     (simp_all add: scan_files_def SCAN_DIRS_def full_dir_def example_fs_def scan_file_def
        sha256_file_test sha256_file_empty rel_path_def replace_char_def rstrip_def
        example_records_def Let_def walk.simps)

text \<open>
  C1. On the example tree, with base URL \<open>http://example.com/pack\<close> and on either platform,
  \<open>scan_files\<close> returns exactly two records: \<open>mods/a.jar\<close> with the SHA-256 digest of
  \<open>test\<close>, size 4 and URL \<open>http://example.com/pack/mods/a.jar\<close>, then
  \<open>config/settings.txt\<close> with size 0 and the digest of the empty byte sequence. With
  \<open>mc_version\<close> \<open>1.20.1\<close>, \<open>generate\<close> writes the manifest that holds these two records.
\<close>

theorem scan_files_example:
  "scan_files pf example_fs (JStr ''pack'') (JStr ''http://example.com/pack'') =
     ([Progress ''mods'' ''a.jar'' 4, Progress ''config'' ''settings.txt'' 0],
      Inr example_records)
   \<and> length example_records = 2
   \<and> map path example_records = [''mods/a.jar'', ''config/settings.txt'']
   \<and> map sha256 example_records =
       [''9f86d081884c7d659a2feaa0c55ad015a3bf4f1b2b0b822cd15d6c15b0f00a08'',
        hexlify (sha256_onepass [])]
   \<and> hexlify (sha256_onepass [0x74, 0x65, 0x73, 0x74]) =
       ''9f86d081884c7d659a2feaa0c55ad015a3bf4f1b2b0b822cd15d6c15b0f00a08''
   \<and> map size_bytes example_records = [4, 0]
   \<and> map url example_records =
       [''http://example.com/pack/mods/a.jar'', ''http://example.com/pack/config/settings.txt'']
   \<and> snd (generate dump pf example_fs example_config) =
       (None,
        example_fs(''pack'' \<mapsto>
          Dir [(''mods'', Dir [(''a.jar'', File NoFault [0x74, 0x65, 0x73, 0x74])]),
               (''config'', Dir [(''settings.txt'', File NoFault [])]),
               (''manifest.json'', File NoFault (dump
                  \<lparr>mc_version = JStr ''1.20.1'',
                   mod_loader = \<lparr>type = JStr ''vanilla'', version = JStr []\<rparr>,
                   files = example_records,
                   java_args = JStr ''-Xmx4G -Xms2G'',
                   server_address = JNull\<rparr>))]))"
proof -
  have a: "hexlify (sha256_onepass [0x74, 0x65, 0x73, 0x74]) =
        ''9f86d081884c7d659a2feaa0c55ad015a3bf4f1b2b0b822cd15d6c15b0f00a08''"
    using sha256_file_eq [of NoFault "[0x74, 0x65, 0x73, 0x74]"] sha256_file_test
    by (simp add: can_read_def)
  have b: "hexlify (sha256_onepass []) =
        ''e3b0c44298fc1c149afbf4c8996fb92427ae41e4649b934ca495991b7852b855''"
    using sha256_file_eq [of NoFault "[]"] sha256_file_empty
    by (simp add: can_read_def)
  have g: "snd (generate dump pf example_fs example_config) =
       (None,
        example_fs(''pack'' \<mapsto>
          Dir [(''mods'', Dir [(''a.jar'', File NoFault [0x74, 0x65, 0x73, 0x74])]),
               (''config'', Dir [(''settings.txt'', File NoFault [])]),
               (''manifest.json'', File NoFault (dump
                  \<lparr>mc_version = JStr ''1.20.1'',
                   mod_loader = \<lparr>type = JStr ''vanilla'', version = JStr []\<rparr>,
                   files = example_records,
                   java_args = JStr ''-Xmx4G -Xms2G'',
                   server_address = JNull\<rparr>))]))"
    by (simp add: generate_def example_config_def config_fields_def and_then_def py_or_def
          scan_files_example_value build_manifest_def write_manifest_def makedirs_def)
       (simp add: example_fs_def and_then_def)
  have r: "length example_records = 2
     \<and> map path example_records = [''mods/a.jar'', ''config/settings.txt'']
     \<and> map sha256 example_records =
       [''9f86d081884c7d659a2feaa0c55ad015a3bf4f1b2b0b822cd15d6c15b0f00a08'',
        ''e3b0c44298fc1c149afbf4c8996fb92427ae41e4649b934ca495991b7852b855'']
     \<and> map size_bytes example_records = [4, 0]
     \<and> map url example_records =
       [''http://example.com/pack/mods/a.jar'', ''http://example.com/pack/config/settings.txt'']"
    by (simp add: example_records_def)
  from a b g r show ?thesis
    using scan_files_example_value [of pf] by simp
qed

section \<open>Facts about the concrete inputs\<close>

lemma example_scanned: "scanned example_fs ''pack'' SCAN_DIRS = example_items"
  by (simp add: scanned_def SCAN_DIRS_def full_dir_def example_fs_def walk.simps walk_items_def
        under_def example_items_def)

lemma example_scan:
  "\<exists>out. scan_files pf example_fs (JStr ''pack'') (JStr u) =
     (out, Inr (map (mk_record pf u) example_items))"
proof -
  have "list_all readable (scanned example_fs ''pack'' SCAN_DIRS)"
    by (simp add: example_scanned example_items_def readable_def can_read_def)
  from scan_files_ok [OF this, of pf u] show ?thesis
    by (simp add: example_scanned)
qed

lemma rel_path_example:
  "rel_path pf [''mods'', ''a.jar''] = ''mods/a.jar''"
  by (cases pf) (simp_all add: rel_path_def replace_char_def)

lemma example_load_config: "example_load example_config_bytes = Some example_config"
  by (simp add: example_load_def)






section \<open>URLs and paths of the records\<close>

lemma rstrip_decomp: "\<exists>k. s = rstrip c s @ replicate k c"
proof -
  have "rev s = takeWhile (\<lambda>x. x = c) (rev s) @ dropWhile (\<lambda>x. x = c) (rev s)"
    by simp
  then have "s = rev (dropWhile (\<lambda>x. x = c) (rev s)) @ rev (takeWhile (\<lambda>x. x = c) (rev s))"
    by (metis rev_append rev_rev_ident)
  moreover have "takeWhile (\<lambda>x. x = c) (rev s) = replicate (length (takeWhile (\<lambda>x. x = c) (rev s))) c"
    by (metis (mono_tags, lifting) replicate_eqI set_takeWhileD)
  ultimately show ?thesis
    by (metis rev_replicate rstrip_def)
qed

lemma rstrip_last: "rstrip c s \<noteq> [] \<Longrightarrow> last (rstrip c s) \<noteq> c"
  by (metis (mono_tags, lifting) hd_dropWhile last_rev rev_is_Nil_conv rstrip_def)

lemma rel_path_no_backslash: "CHR 0x5C \<notin> set (rel_path pf comps)"
  by (auto simp: rel_path_def replace_char_def)

lemma scan_file_record:
  "scan_file pf base_url sd root entry = Inr (r, line) \<Longrightarrow>
   \<exists>u. base_url = JStr u \<and> url r = rstrip (CHR ''/'') u @ ''/'' @ path r \<and>
       CHR 0x5C \<notin> set (path r)"
  by (cases entry)
     (auto simp: scan_file_def Let_def rel_path_no_backslash split: sum.splits json.splits)

lemma scan_filenames_inv:
  "list_all (url_ok base_url) fl \<Longrightarrow>
   list_all (url_ok base_url) (fst (snd (scan_filenames pf base_url sd root entries fl out)))"
proof (induction entries arbitrary: fl out)
  case Nil
  then show ?case by simp
next
  case (Cons e entries)
  show ?case
  proof (cases "scan_file pf base_url sd root e")
    case (Inl err)
    with Cons.prems show ?thesis by simp
  next
    case (Inr p)
    obtain r line where p: "p = (r, line)" by (cases p) auto
    from scan_file_record [of pf base_url sd root e r line] Inr p have "url_ok base_url r"
      by (auto simp: url_ok_def)
    with Cons.prems have "list_all (url_ok base_url) (fl @ [r])"
      by simp
    from Cons.IH [OF this] Inr p show ?thesis
      by simp
  qed
qed

lemma scan_walk_inv:
  "list_all (url_ok base_url) fl \<Longrightarrow>
   list_all (url_ok base_url) (fst (snd (scan_walk pf base_url sd w fl out)))"
proof (induction w arbitrary: fl out)
  case Nil
  then show ?case by simp
next
  case (Cons a w)
  obtain root dirnames filenames where a: "a = (root, dirnames, filenames)"
    by (cases a) auto
  obtain eo fl' out' where s: "scan_filenames pf base_url sd root filenames fl out = (eo, fl', out')"
    by (cases "scan_filenames pf base_url sd root filenames fl out") auto
  from scan_filenames_inv [OF Cons.prems, of pf sd root filenames out] s
  have inv: "list_all (url_ok base_url) fl'" by simp
  show ?case
  proof (cases eo)
    case None
    from Cons.IH [OF inv, of out'] show ?thesis
      by (simp add: a s None)
  next
    case (Some e)
    with inv show ?thesis
      by (simp add: a s)
  qed
qed

lemma scan_dirs_inv:
  "list_all (url_ok base_url) fl \<Longrightarrow>
   list_all (url_ok base_url) (fst (snd (scan_dirs pf fs base_dir base_url sds fl out)))"
proof (induction sds arbitrary: fl out)
  case Nil
  then show ?case by simp
next
  case (Cons sd sds)
  show ?case
  proof (cases base_dir)
    case (JStr d)
    show ?thesis
    proof (cases "\<exists>es. full_dir fs d sd = Some (Dir es)")
      case True
      then obtain es where es: "full_dir fs d sd = Some (Dir es)" by blast
      obtain eo fl' out' where
        s: "scan_walk pf base_url sd (walk [sd] (Dir es)) fl out = (eo, fl', out')"
        by (cases "scan_walk pf base_url sd (walk [sd] (Dir es)) fl out") auto
      from scan_walk_inv [OF Cons.prems, of pf sd "walk [sd] (Dir es)" out] s
      have inv: "list_all (url_ok base_url) fl'" by simp
      show ?thesis
      proof (cases eo)
        case None
        from Cons.IH [OF inv, of out'] show ?thesis
          by (simp add: JStr es s None)
      next
        case (Some e)
        with inv show ?thesis
          by (simp add: JStr es s)
      qed
    next
      case False
      with Cons.IH [OF Cons.prems, of out] show ?thesis
        by (auto simp: JStr split: option.splits node.splits)
    qed
  qed (use Cons.prems in simp_all)
qed

text \<open>
  C2. Every record that \<open>scan_files\<close> returns has as URL the base URL without its trailing
  slashes (what is cut off is slashes only, and what remains does not end with a slash), one
  slash, and the path of the record; and the path holds no backslash, on either platform.
\<close>

theorem scan_files_url_and_path:
  assumes "scan_files pf fs base_dir base_url = (out, Inr fl)" and "r \<in> set fl"
  shows "\<exists>u k. base_url = JStr u \<and> u = rstrip (CHR ''/'') u @ replicate k (CHR ''/'') \<and>
           (rstrip (CHR ''/'') u = [] \<or> last (rstrip (CHR ''/'') u) \<noteq> CHR ''/'') \<and>
           url r = rstrip (CHR ''/'') u @ ''/'' @ path r \<and>
           CHR 0x5C \<notin> set (path r)"
proof -
  from scan_dirs_inv [of base_url "[]" pf fs base_dir SCAN_DIRS "[]"] assms(1)
  have "list_all (url_ok base_url) fl"
    by (auto simp: scan_files_def split: prod.splits option.splits)
  with assms(2) have ok: "url_ok base_url r"
    by (simp add: list_all_iff)
  then obtain u where u: "base_url = JStr u"
    by (cases base_url) (simp_all add: url_ok_def)
  from rstrip_decomp [of u "CHR ''/''"] obtain k where
    k: "u = rstrip (CHR ''/'') u @ replicate k (CHR ''/'')" by blast
  from ok u k rstrip_last [of "CHR ''/''" u] show ?thesis
    by (auto simp: url_ok_def)
qed

theorem scan_files_url_and_path_witness:
  "\<exists>out fl r. scan_files Windows example_fs (JStr ''pack'') (JStr ''http://example.com/pack//'')
        = (out, Inr fl) \<and> r \<in> set fl \<and> path r = ''mods/a.jar'' \<and>
      url r = ''http://example.com/pack/mods/a.jar'' \<and>
      (\<exists>u k. JStr ''http://example.com/pack//'' = JStr u \<and>
         u = rstrip (CHR ''/'') u @ replicate k (CHR ''/'') \<and>
         (rstrip (CHR ''/'') u = [] \<or> last (rstrip (CHR ''/'') u) \<noteq> CHR ''/'') \<and>
         url r = rstrip (CHR ''/'') u @ ''/'' @ path r \<and>
         CHR 0x5C \<notin> set (path r))"
proof -
  let ?u = "''http://example.com/pack//''"
  let ?r = "mk_record Windows ?u ([''mods'', ''a.jar''], NoFault, [0x74, 0x65, 0x73, 0x74])"
  from example_scan [of Windows ?u] obtain out where
    s: "scan_files Windows example_fs (JStr ''pack'') (JStr ?u) =
          (out, Inr (map (mk_record Windows ?u) example_items))"
    by blast
  have m: "?r \<in> set (map (mk_record Windows ?u) example_items)"
    by (simp add: example_items_def)
  have v: "path ?r = ''mods/a.jar'' \<and> url ?r = ''http://example.com/pack/mods/a.jar''"
    by (simp add: mk_record_def rel_path_example rstrip_def)
  from scan_files_url_and_path [OF s m] s m v show ?thesis
    by blast
qed

section \<open>The exits of \<open>main\<close>\<close>


lemma main_loaded:
  "fs (config_path_of arg) = Some (File ft bs) \<Longrightarrow> read_all ft bs = Inr content \<Longrightarrow>
   load content = Some config \<Longrightarrow>
   main load dump pf arg fs =
     (case check_required config [''dir'', ''base_url'', ''mc_version''] of
        Inl e \<Rightarrow> ([], Uncaught e, fs)
      | Inr (Some key) \<Rightarrow> ([MissingField key], SysExit 1, fs)
      | Inr None \<Rightarrow>
          (case generate dump pf fs config of
             (out, Some e, fs') \<Rightarrow> (out, Uncaught e, fs')
           | (out, None, fs') \<Rightarrow> (out, Returned, fs')))"
  by (simp add: main_def)






section \<open>What \<open>generate\<close> writes\<close>









section \<open>Scan directories that do not exist\<close>





section \<open>A file that cannot be hashed\<close>

lemma config_fields_obj_ok:
  "map_of kvs ''dir'' = Some base_dir \<Longrightarrow> map_of kvs ''base_url'' = Some base_url \<Longrightarrow>
   map_of kvs ''mc_version'' = Some v \<Longrightarrow>
   \<exists>lt lv ja sa. config_fields (JObj kvs) = Inr (base_dir, base_url, v, lt, lv, ja, sa)"
  by (auto simp: config_fields_def and_then_def split: option.splits)

lemma map_of_Some_fst: "map_of kvs k = Some v \<Longrightarrow> k \<in> fst ` set kvs"
  by (metis domI dom_map_of_conv_image_fst)

text \<open>
  C5. When hashing one of the scanned files raises \<open>IOError\<close>, \<open>scan_files\<close> raises it,
  \<open>generate\<close> raises it and \<open>main\<close> ends with it uncaught; the file system is left as it
  was, so no manifest is written in that run.
\<close>

theorem ioerror_aborts_run:
  assumes "fs (config_path_of arg) = Some (File cft cbs)"
    and "read_all cft cbs = Inr content"
    and "load content = Some (JObj kvs)"
    and "map_of kvs ''dir'' = Some (JStr d)"
    and "map_of kvs ''base_url'' = Some (JStr u)"
    and "map_of kvs ''mc_version'' = Some v"
    and "(p, ft, bs) \<in> set (scanned fs d SCAN_DIRS)"
    and "sha256_file ft bs = Inl IOError"
  shows "\<exists>out out'. scan_files pf fs (JStr d) (JStr u) = (out, Inl IOError) \<and>
           generate dump pf fs (JObj kvs) = (out', Some IOError, fs) \<and>
           main load dump pf arg fs = (out', Uncaught IOError, fs)"
proof -
  from assms(8) have "\<not> readable (p, ft, bs)"
    by (auto simp: readable_def sha256_file_eq split: if_splits)
  with assms(7) have "\<not> list_all readable (scanned fs d SCAN_DIRS)"
    by (auto simp: list_all_iff)
  from scan_files_fail [OF this, of pf u] obtain out where
    s: "scan_files pf fs (JStr d) (JStr u) = (out, Inl IOError)"
    by blast
  from config_fields_obj_ok [OF assms(4,5,6)] obtain lt lv ja sa where
    c: "config_fields (JObj kvs) = Inr (JStr d, JStr u, v, lt, lv, ja, sa)"
    by blast
  from c s obtain out' where g: "generate dump pf fs (JObj kvs) = (out', Some IOError, fs)"
    by (simp add: generate_def Let_def)
  from assms(4,5,6) have "check_required (JObj kvs) [''dir'', ''base_url'', ''mc_version''] = Inr None"
    by (simp add: map_of_Some_fst)
  with assms(1,2,3) g have "main load dump pf arg fs = (out', Uncaught IOError, fs)"
    by (simp add: main_loaded)
  with s g show ?thesis
    by blast
qed

theorem ioerror_aborts_run_witness:
  "\<forall>dump. ([''mods'', ''a.jar''], OpenFault, [0x74, 0x65, 0x73, 0x74])
        \<in> set (scanned faulty_fs ''pack'' SCAN_DIRS) \<and>
     sha256_file OpenFault [0x74, 0x65, 0x73, 0x74] = Inl IOError \<and>
     (\<exists>out out'. scan_files Posix faulty_fs (JStr ''pack'') (JStr ''http://example.com/pack'') =
          (out, Inl IOError) \<and>
        generate dump Posix faulty_fs example_config = (out', Some IOError, faulty_fs) \<and>
        main example_load dump Posix None faulty_fs = (out', Uncaught IOError, faulty_fs))"
proof (intro allI)
  fix dump :: "manifest \<Rightarrow> byte list"
  have a: "faulty_fs (config_path_of None) = Some (File NoFault example_config_bytes)"
    by (simp add: faulty_fs_def config_path_of_def)
  have b: "read_all NoFault example_config_bytes = Inr example_config_bytes"
    by (simp add: read_all_def)
  have c: "example_load example_config_bytes =
      Some (JObj [(''dir'', JStr ''pack''), (''base_url'', JStr ''http://example.com/pack''),
                  (''mc_version'', JStr ''1.20.1'')])"
    by (simp add: example_load_config example_config_def)
  have s: "([''mods'', ''a.jar''], OpenFault, [0x74, 0x65, 0x73, 0x74])
        \<in> set (scanned faulty_fs ''pack'' SCAN_DIRS)"
    by (simp add: scanned_def SCAN_DIRS_def full_dir_def faulty_fs_def walk.simps walk_items_def
          under_def)
  have h: "sha256_file OpenFault [0x74, 0x65, 0x73, 0x74] = Inl IOError"
    by (simp add: sha256_file_def sha256_stream_def)
  from ioerror_aborts_run [where fs = faulty_fs and arg = None and load = example_load
      and dump = dump and pf = Posix and d = "''pack''" and u = "''http://example.com/pack''"
      and v = "JStr ''1.20.1''", OF a b c _ _ _ s h] s h
  show "([''mods'', ''a.jar''], OpenFault, [0x74, 0x65, 0x73, 0x74])
        \<in> set (scanned faulty_fs ''pack'' SCAN_DIRS) \<and>
     sha256_file OpenFault [0x74, 0x65, 0x73, 0x74] = Inl IOError \<and>
     (\<exists>out out'. scan_files Posix faulty_fs (JStr ''pack'') (JStr ''http://example.com/pack'') =
          (out, Inl IOError) \<and>
        generate dump Posix faulty_fs example_config = (out', Some IOError, faulty_fs) \<and>
        main example_load dump Posix None faulty_fs = (out', Uncaught IOError, faulty_fs))"
    by (simp add: example_config_def)
qed

end
